theory Spec2Isabelle
  imports Complex_Main "HOL-Library.Log_Nat"
begin

section \<open>JavaScript values the selectors and components rely on\<close>

text \<open>
  Indices are naturals (or integers where the code lets them run below zero). A read
  outside an array yields \<open>undefined\<close> in JavaScript: \<open>None\<close> here. Reading a property
  of \<open>undefined\<close> throws a \<open>TypeError\<close>; \<open>ensureExists\<close> throws an \<open>Error\<close> carrying
  its message.
\<close>

datatype js_error = TypeError | Error string

definition js_index :: "'a list \<Rightarrow> int \<Rightarrow> 'a option" where
  "js_index xs i = (if 0 \<le> i \<and> i < int (length xs) then Some (xs ! nat i) else None)"

text \<open>\<open>Array.prototype.indexOf\<close>: the first position of the element, or -1.\<close>

fun indexOf :: "'a list \<Rightarrow> 'a \<Rightarrow> int" where
  "indexOf [] x = -1"
| "indexOf (y # ys) x =
     (if y = x then 0 else (let r = indexOf ys x in if r = -1 then -1 else r + 1))"

section \<open>JavaScript numbers\<close>

text \<open>
  A JavaScript number is an IEEE 754 binary64 value: \<open>NaN\<close>, an infinity, or a finite
  value \<open>m * 2 ^ (e - 52)\<close> with \<open>\<bar>m\<bar> \<le> 2 ^ 53\<close> and \<open>-1022 \<le> e \<le> 1023\<close>, held here as
  the rational it denotes. The two zeros are one value: subtraction and comparison, the
  only operations the flame graph applies, do not tell them apart.
\<close>

datatype js_number = NaN | PosInfinity | NegInfinity | Finite rat

definition pow2 :: "int \<Rightarrow> rat" where
  "pow2 e = (if 0 \<le> e then 2 ^ nat e else 1 / 2 ^ nat (- e))"

text \<open>For \<open>a > 0\<close>, the exponent \<open>e\<close> with \<open>2 ^ e \<le> a < 2 ^ (e + 1)\<close>.\<close>

definition floorLog2 :: "rat \<Rightarrow> int" where
  "floorLog2 a = (if 1 \<le> a then bitlen \<lfloor>a\<rfloor> - 1 else - bitlen (\<lceil>1 / a\<rceil> - 1))"

text \<open>The nearest integer; of two equally near ones the even one.\<close>

definition roundHalfEven :: "rat \<Rightarrow> int" where
  "roundHalfEven r =
     (let f = \<lfloor>r\<rfloor>; d = r - of_int f
      in if d < 1 / 2 then f else if 1 / 2 < d then f + 1 else if even f then f else f + 1)"

text \<open>
  Rounding of an exact result to binary64, to nearest with ties to even: the result is a
  multiple of the spacing \<open>q\<close> of the doubles around it, which is \<open>2 ^ (e - 52)\<close> for a
  value in \<open>[2 ^ e, 2 ^ (e + 1))\<close> and \<open>2 ^ -1074\<close> below \<open>2 ^ -1022\<close>. A result that
  rounds to \<open>2 ^ 1024\<close> or more (the exponent is above 1023, or it is 1023 and the
  significand rounds up to \<open>2 ^ 53\<close>) overflows to an infinity.
\<close>

definition roundToDouble :: "rat \<Rightarrow> js_number" where
  "roundToDouble x =
     (if x = 0 then Finite 0
      else
        (let a = \<bar>x\<bar>;
             e = max (floorLog2 a) (- 1022);
             q = pow2 (e - 52);
             m = roundHalfEven (a / q);
             r = of_int m * q
         in if 1023 < e \<or> (e = 1023 \<and> m = 9007199254740992)
            then (if 0 < x then PosInfinity else NegInfinity)
            else Finite (if 0 < x then r else - r)))"

text \<open>The binary operator \<open>-\<close> on numbers.\<close>

fun js_minus :: "js_number \<Rightarrow> js_number \<Rightarrow> js_number" where
  "js_minus NaN y = NaN"
| "js_minus x NaN = NaN"
| "js_minus PosInfinity PosInfinity = NaN"
| "js_minus NegInfinity NegInfinity = NaN"
| "js_minus PosInfinity y = PosInfinity"
| "js_minus NegInfinity y = NegInfinity"
| "js_minus (Finite x) PosInfinity = NegInfinity"
| "js_minus (Finite x) NegInfinity = PosInfinity"
| "js_minus (Finite x) (Finite y) = roundToDouble (x - y)"

text \<open>The operator \<open>>\<close> on numbers: false whenever an operand is \<open>NaN\<close>.\<close>

fun js_gt :: "js_number \<Rightarrow> js_number \<Rightarrow> bool" where
  "js_gt NaN y = False"
| "js_gt x NaN = False"
| "js_gt PosInfinity PosInfinity = False"
| "js_gt PosInfinity y = True"
| "js_gt NegInfinity y = False"
| "js_gt (Finite x) PosInfinity = False"
| "js_gt (Finite x) NegInfinity = True"
| "js_gt (Finite x) (Finite y) = (y < x)"

text \<open>An operand read from an array: \<open>undefined\<close> converts to \<open>NaN\<close>.\<close>

fun js_toNumber :: "js_number option \<Rightarrow> js_number" where
  "js_toNumber None = NaN"
| "js_toNumber (Some x) = x"

section \<open>components/flame-graph/FlameGraph.js\<close>

type_synonym IndexIntoCallNodeTable = nat

record CallNodeTable =
  prefix :: "int list"
  func :: "nat list"
  category :: "nat list"
  depth :: "nat list"

text \<open>One row of the \<open>FlameGraphTiming\<close>: three parallel arrays.\<close>

record FlameGraphTimingRow =
  start :: "js_number list"
  end' :: "js_number list"
  callNode :: "IndexIntoCallNodeTable list"

type_synonym FlameGraphTiming = "FlameGraphTimingRow list"

text \<open>\<open>const SELECTABLE_THRESHOLD = 0.001\<close>: the double that the literal denotes.\<close>

definition SELECTABLE_THRESHOLD :: js_number where
  "SELECTABLE_THRESHOLD = roundToDouble (1 / 1000)"

text \<open>
  The expression \<open>row.end[columnIndex] - row.start[columnIndex] > SELECTABLE_THRESHOLD\<close>,
  which both \<open>_wideEnough\<close> and \<open>_nextSelectableInRow\<close> evaluate.
\<close>

definition widerThanThreshold :: "FlameGraphTimingRow \<Rightarrow> int \<Rightarrow> bool" where
  "widerThanThreshold row columnIndex =
     js_gt (js_minus (js_toNumber (js_index (end' row) columnIndex))
                     (js_toNumber (js_index (start row) columnIndex)))
           SELECTABLE_THRESHOLD"

text \<open>
  \<open>const depth = callNodeTable.depth[callNodeIndex]; const row = flameGraphTiming[depth];\<close>
  followed by the first use \<open>row.callNode\<close>, which throws when \<open>row\<close> is \<open>undefined\<close>.
\<close>

definition rowOfCallNode ::
  "FlameGraphTiming \<Rightarrow> CallNodeTable \<Rightarrow> IndexIntoCallNodeTable \<Rightarrow> js_error + FlameGraphTimingRow" where
  "rowOfCallNode flameGraphTiming callNodeTable callNodeIndex =
     (case js_index (depth callNodeTable) (int callNodeIndex) of
        None \<Rightarrow> Inl TypeError
      | Some d \<Rightarrow>
          (case js_index flameGraphTiming (int d) of
             None \<Rightarrow> Inl TypeError
           | Some row \<Rightarrow> Inr row))"

definition wideEnough ::
  "FlameGraphTiming \<Rightarrow> CallNodeTable \<Rightarrow> IndexIntoCallNodeTable \<Rightarrow> js_error + bool" where
  "wideEnough flameGraphTiming callNodeTable callNodeIndex =
     (case rowOfCallNode flameGraphTiming callNodeTable callNodeIndex of
        Inl e \<Rightarrow> Inl e
      | Inr row \<Rightarrow>
          (let columnIndex = indexOf (callNode row) callNodeIndex
           in Inr (widerThanThreshold row columnIndex)))"





text \<open>
  A small call-node table and three timings, used to exercise the theorems below: the
  root and its three children. In \<open>exampleTiming\<close> the boxes of the call nodes 1 and 2
  are exactly as wide as the double 0.001, which is 1152921504606847 / 2 ^ 60. In
  \<open>decimalTiming\<close> the box of call node 2 is written [0.5, 0.501]; the double that
  0.501 denotes is 4512606826625237 / 2 ^ 53. In \<open>repeatedTiming\<close> the row at depth 1
  lists call node 1 twice.
\<close>

definition exampleCallNodeTable :: CallNodeTable where
  "exampleCallNodeTable =
     \<lparr>prefix = [-1, 0, 0, 0], func = [0, 1, 2, 3], category = [0, 0, 0, 0], depth = [0, 1, 1, 1]\<rparr>"

definition exampleRow :: FlameGraphTimingRow where
  "exampleRow =
     \<lparr>start = [Finite 0, Finite (1152921504606847 / 1152921504606846976),
               Finite (1152921504606847 / 576460752303423488)],
      end' = [Finite (1152921504606847 / 1152921504606846976),
              Finite (1152921504606847 / 576460752303423488), Finite 1],
      callNode = [1, 2, 3]\<rparr>"

definition rootRow :: FlameGraphTimingRow where
  "rootRow = \<lparr>start = [Finite 0], end' = [Finite 1], callNode = [0]\<rparr>"

definition exampleTiming :: FlameGraphTiming where
  "exampleTiming = [rootRow, exampleRow]"

definition decimalRow :: FlameGraphTimingRow where
  "decimalRow =
     \<lparr>start = [Finite 0, Finite (1 / 2), Finite (4512606826625237 / 9007199254740992)],
      end' = [Finite (1 / 2), Finite (4512606826625237 / 9007199254740992), Finite 1],
      callNode = [1, 2, 3]\<rparr>"

definition decimalTiming :: FlameGraphTiming where
  "decimalTiming = [rootRow, decimalRow]"



section \<open>The profile and the sanitization directive\<close>

type_synonym ThreadIndex = nat
type_synonym TrackIndex = nat
type_synonym Pid = nat
type_synonym Milliseconds = rat
type_synonym StartEndRange = "Milliseconds \<times> Milliseconds"

text \<open>
  Modelled from the spec: the type declarations of \<open>types/profile\<close>,
  \<open>types/profile-derived\<close> and \<open>types/actions\<close>, whose sources are not part of the
  verified files. The profile, its threads and their tables follow the data model of the
  specification (section 3); \<open>CheckedSharingOptions\<close>, \<open>RemoveProfileInformation\<close> and the
  two track types have exactly the fields that \<open>getRemoveProfileInformation\<close> reads and
  writes. A marker payload is a tagged union: a screenshot (with its window), a network
  request (with its URI), a preference read (name and value) or any other payload.
\<close>

record ProfileMeta =
  startTime :: Milliseconds
  product :: string
  interval :: Milliseconds
  url :: "string option"
  extensions :: "string list"

record SamplesTable =
  time :: "Milliseconds list"
  stack :: "nat option list"
  responsiveness :: "Milliseconds list"

record StackTable =
  stackPrefix :: "int list"
  stackFrame :: "nat list"
  stackCategory :: "nat list"
  stackDepth :: "nat list"

datatype MarkerPayload =
    ScreenshotPayload string
  | NetworkPayload string
  | PreferencePayload string string
  | GenericPayload

record MarkersTable =
  markerStartTime :: "Milliseconds list"
  markerEndTime :: "Milliseconds option list"
  markerName :: "string list"
  markerData :: "MarkerPayload list"

record Thread =
  samples :: SamplesTable
  stackTable :: StackTable
  frameTable :: "nat list"
  markers :: MarkersTable

datatype GlobalTrack = ProcessTrack Pid "ThreadIndex option" | OtherGlobalTrack string

datatype LocalTrack = ThreadTrack ThreadIndex | OtherLocalTrack string

record Tracks =
  globalList :: "GlobalTrack list"
  localListsByPid :: "(Pid \<times> LocalTrack list) list"

record Profile =
  meta :: ProfileMeta
  threads :: "Thread list"
  tracks :: Tracks

record CheckedSharingOptions =
  includeHiddenThreads :: bool
  includeFullTimeRange :: bool
  includeScreenshots :: bool
  includeUrls :: bool
  includeExtension :: bool
  includePreferenceValues :: bool

record RemoveProfileInformation =
  shouldFilterToCommittedRange :: "StartEndRange option"
  shouldRemoveUrls :: bool
  shouldRemoveThreadsWithScreenshots :: "ThreadIndex set"
  shouldRemoveThreads :: "ThreadIndex set"
  shouldRemoveExtensions :: bool
  shouldRemovePreferenceValues :: bool

section \<open>selectors/publish.js: getRemoveProfileInformation\<close>

text \<open>\<open>Object.values(checkedSharingOptions)\<close>.\<close>

definition objectValues :: "CheckedSharingOptions \<Rightarrow> bool list" where
  "objectValues checkedSharingOptions =
     [includeHiddenThreads checkedSharingOptions,
      includeFullTimeRange checkedSharingOptions,
      includeScreenshots checkedSharingOptions,
      includeUrls checkedSharingOptions,
      includeExtension checkedSharingOptions,
      includePreferenceValues checkedSharingOptions]"

text \<open>
  \<open>let isIncludingEverything = true; for (const value of ...) isIncludingEverything =
  isIncludingEverything && value;\<close>
\<close>

definition isIncludingEverything :: "CheckedSharingOptions \<Rightarrow> bool" where
  "isIncludingEverything checkedSharingOptions =
     fold (\<lambda>value acc. acc \<and> value) (objectValues checkedSharingOptions) True"

text \<open>
  \<open>for (const localTrack of localTracks) if (localTrack.type === 'thread')
  shouldRemoveThreads.add(localTrack.threadIndex);\<close>
\<close>

fun addChildrenThreads :: "LocalTrack list \<Rightarrow> ThreadIndex set \<Rightarrow> ThreadIndex set" where
  "addChildrenThreads [] shouldRemove = shouldRemove"
| "addChildrenThreads (ThreadTrack threadIndex # localTracks) shouldRemove =
     addChildrenThreads localTracks (insert threadIndex shouldRemove)"
| "addChildrenThreads (OtherLocalTrack ty # localTracks) shouldRemove =
     addChildrenThreads localTracks shouldRemove"

text \<open>
  The loop over \<open>hiddenGlobalTracks\<close> (a \<open>Set\<close>, read in insertion order). A hidden
  index outside \<open>globalTracks\<close> reads \<open>undefined\<close>, whose \<open>.type\<close> throws; a missing
  entry of \<open>localTracksByPid\<close> makes \<open>ensureExists\<close> throw.
\<close>

fun addHiddenGlobalTracks ::
  "GlobalTrack list \<Rightarrow> (Pid \<times> LocalTrack list) list \<Rightarrow> TrackIndex list \<Rightarrow> ThreadIndex set
     \<Rightarrow> js_error + ThreadIndex set" where
  "addHiddenGlobalTracks globalTracks localTracksByPid [] shouldRemove = Inr shouldRemove"
| "addHiddenGlobalTracks globalTracks localTracksByPid (globalTrackIndex # hidden) shouldRemove =
     (case js_index globalTracks (int globalTrackIndex) of
        None \<Rightarrow> Inl TypeError
      | Some globalTrack \<Rightarrow>
          (case globalTrack of
             ProcessTrack pid mainThread \<Rightarrow>
               (case mainThread of
                  None \<Rightarrow> addHiddenGlobalTracks globalTracks localTracksByPid hidden shouldRemove
                | Some mainThreadIndex \<Rightarrow>
                    (case map_of localTracksByPid pid of
                       None \<Rightarrow> Inl (Error ''Expected to be able to get a local track by PID.'')
                     | Some localTracks \<Rightarrow>
                         addHiddenGlobalTracks globalTracks localTracksByPid hidden
                           (addChildrenThreads localTracks (insert mainThreadIndex shouldRemove))))
           | OtherGlobalTrack ty \<Rightarrow>
               addHiddenGlobalTracks globalTracks localTracksByPid hidden shouldRemove))"

text \<open>The inner loop over the hidden local track indexes of one process.\<close>

fun addHiddenLocalTrackIndexes ::
  "LocalTrack list \<Rightarrow> TrackIndex list \<Rightarrow> ThreadIndex set \<Rightarrow> js_error + ThreadIndex set" where
  "addHiddenLocalTrackIndexes localTracks [] shouldRemove = Inr shouldRemove"
| "addHiddenLocalTrackIndexes localTracks (hiddenLocalTrackIndex # hidden) shouldRemove =
     (case js_index localTracks (int hiddenLocalTrackIndex) of
        None \<Rightarrow> Inl TypeError
      | Some (ThreadTrack threadIndex) \<Rightarrow>
          addHiddenLocalTrackIndexes localTracks hidden (insert threadIndex shouldRemove)
      | Some (OtherLocalTrack ty) \<Rightarrow>
          addHiddenLocalTrackIndexes localTracks hidden shouldRemove)"

text \<open>The loop over the entries of the \<open>Map\<close> \<open>hiddenLocalTracksByPid\<close>.\<close>

fun addHiddenLocalTracks ::
  "(Pid \<times> LocalTrack list) list \<Rightarrow> (Pid \<times> TrackIndex list) list \<Rightarrow> ThreadIndex set
     \<Rightarrow> js_error + ThreadIndex set" where
  "addHiddenLocalTracks localTracksByPid [] shouldRemove = Inr shouldRemove"
| "addHiddenLocalTracks localTracksByPid ((pid, hiddenLocalTrackIndexes) # hidden) shouldRemove =
     (case map_of localTracksByPid pid of
        None \<Rightarrow> Inl (Error ''Expected to be able to get a local track by PID'')
      | Some localTracks \<Rightarrow>
          (case addHiddenLocalTrackIndexes localTracks hiddenLocalTrackIndexes shouldRemove of
             Inl e \<Rightarrow> Inl e
           | Inr shouldRemove' \<Rightarrow> addHiddenLocalTracks localTracksByPid hidden shouldRemove'))"

text \<open>
  The selector's result function. Its arguments are the values of the seven input
  selectors, in the order of \<open>createSelector\<close>; \<open>None\<close> is the \<open>null\<close> directive.
\<close>

definition getRemoveProfileInformation ::
  "CheckedSharingOptions \<Rightarrow> Profile \<Rightarrow> StartEndRange \<Rightarrow> TrackIndex list
     \<Rightarrow> (Pid \<times> TrackIndex list) list \<Rightarrow> GlobalTrack list \<Rightarrow> (Pid \<times> LocalTrack list) list
     \<Rightarrow> js_error + RemoveProfileInformation option" where
  "getRemoveProfileInformation checkedSharingOptions profile committedRange hiddenGlobalTracks
       hiddenLocalTracksByPid globalTracks localTracksByPid =
     (if isIncludingEverything checkedSharingOptions then Inr None
      else
        (case
           (if \<not> includeHiddenThreads checkedSharingOptions then
              (case addHiddenGlobalTracks globalTracks localTracksByPid hiddenGlobalTracks {} of
                 Inl e \<Rightarrow> Inl e
               | Inr shouldRemove \<Rightarrow>
                   addHiddenLocalTracks localTracksByPid hiddenLocalTracksByPid shouldRemove)
            else Inr {})
         of
           Inl e \<Rightarrow> Inl e
         | Inr shouldRemoveThreads' \<Rightarrow>
             Inr (Some
               \<lparr>shouldFilterToCommittedRange =
                  (if includeFullTimeRange checkedSharingOptions then None else Some committedRange),
                shouldRemoveUrls = (\<not> includeUrls checkedSharingOptions),
                shouldRemoveThreadsWithScreenshots =
                  set (if includeScreenshots checkedSharingOptions then []
                       else map (\<lambda>(_, threadIndex). threadIndex)
                              (zip (threads profile) [0..<length (threads profile)])),
                shouldRemoveThreads = shouldRemoveThreads',
                shouldRemoveExtensions = (\<not> includeExtension checkedSharingOptions),
                shouldRemovePreferenceValues = (\<not> includePreferenceValues checkedSharingOptions)\<rparr>)))"

section \<open>profile-logic/sanitize.js: sanitizePII\<close>

text \<open>
  Modelled from the spec: \<open>sanitizePII\<close> of \<open>profile-logic/sanitize\<close>, which
  \<open>selectors/publish.js\<close> imports and passes to \<open>createSelector\<close>; its source is not
  part of the verified files. The definitions of this section follow the contract of the
  specification's sanitizer (section 4.1) and its error conditions (section 7): the
  result holds the sanitized profile, a committed range and, for every old thread index,
  the new index or \<open>None\<close> for a removed thread.
\<close>

record SanitizeProfileResult =
  profile :: Profile
  committedRange :: "StartEndRange option"
  oldThreadIndexToNew :: "ThreadIndex option list"

text \<open>The rows of one column whose row index passes the test.\<close>

definition keepRows :: "(nat \<Rightarrow> bool) \<Rightarrow> 'a list \<Rightarrow> 'a list" where
  "keepRows keep column =
     map snd (filter (\<lambda>(i, x). keep i) (zip [0..<length column] column))"

definition keepMarkerRows :: "(nat \<Rightarrow> bool) \<Rightarrow> MarkersTable \<Rightarrow> MarkersTable" where
  "keepMarkerRows keep m =
     \<lparr>markerStartTime = keepRows keep (markerStartTime m),
      markerEndTime = keepRows keep (markerEndTime m),
      markerName = keepRows keep (markerName m),
      markerData = keepRows keep (markerData m)\<rparr>"

text \<open>URL removal: the URL-carrying field of a payload becomes the redacted placeholder.\<close>

definition REDACTED :: string where
  "REDACTED = []"

fun removeUrl :: "MarkerPayload \<Rightarrow> MarkerPayload" where
  "removeUrl (NetworkPayload uri) = NetworkPayload REDACTED"
| "removeUrl payload = payload"

text \<open>Preference-value removal: the value is redacted, the preference name stays.\<close>

fun removePreferenceValue :: "MarkerPayload \<Rightarrow> MarkerPayload" where
  "removePreferenceValue (PreferencePayload prefName prefValue) = PreferencePayload prefName REDACTED"
| "removePreferenceValue payload = payload"

fun isScreenshot :: "MarkerPayload \<Rightarrow> bool" where
  "isScreenshot (ScreenshotPayload windowID) = True"
| "isScreenshot payload = False"

text \<open>Screenshot removal deletes the screenshot rows of the marker table only.\<close>

definition removeScreenshots :: "MarkersTable \<Rightarrow> MarkersTable" where
  "removeScreenshots m =
     keepMarkerRows
       (\<lambda>i. case js_index (markerData m) (int i) of
               None \<Rightarrow> True
             | Some payload \<Rightarrow> \<not> isScreenshot payload) m"

text \<open>
  The committed-range filter clips the sample and marker tables to the range and moves
  the time origin to the start of the range.
\<close>

definition clipSamples :: "StartEndRange \<Rightarrow> SamplesTable \<Rightarrow> SamplesTable" where
  "clipSamples r s =
     (let keep = (\<lambda>i. case js_index (time s) (int i) of
                         None \<Rightarrow> False
                       | Some t \<Rightarrow> fst r \<le> t \<and> t < snd r)
      in \<lparr>time = map (\<lambda>t. t - fst r) (keepRows keep (time s)),
          stack = keepRows keep (stack s),
          responsiveness = keepRows keep (responsiveness s)\<rparr>)"

definition clipMarkers :: "StartEndRange \<Rightarrow> MarkersTable \<Rightarrow> MarkersTable" where
  "clipMarkers r m =
     (let keep = (\<lambda>i. case (js_index (markerStartTime m) (int i), js_index (markerEndTime m) (int i)) of
                         (Some t, Some (Some e)) \<Rightarrow> t < snd r \<and> fst r \<le> e
                       | (Some t, _) \<Rightarrow> fst r \<le> t \<and> t < snd r
                       | _ \<Rightarrow> False);
          kept = keepMarkerRows keep m
      in kept\<lparr>markerStartTime := map (\<lambda>t. t - fst r) (markerStartTime kept),
               markerEndTime := map (map_option (\<lambda>t. t - fst r)) (markerEndTime kept)\<rparr>)"

definition mapMarkerData :: "(MarkerPayload \<Rightarrow> MarkerPayload) \<Rightarrow> Thread \<Rightarrow> Thread" where
  "mapMarkerData f t = t\<lparr>markers := (markers t)\<lparr>markerData := map f (markerData (markers t))\<rparr>\<rparr>"

text \<open>What the directive does to the thread that has the index \<open>threadIndex\<close>.\<close>

definition sanitizeThread :: "RemoveProfileInformation \<Rightarrow> ThreadIndex \<Rightarrow> Thread \<Rightarrow> Thread" where
  "sanitizeThread d threadIndex t =
     (let t1 = (if shouldRemoveUrls d then mapMarkerData removeUrl t else t);
          t2 = (if threadIndex \<in> shouldRemoveThreadsWithScreenshots d
                then t1\<lparr>markers := removeScreenshots (markers t1)\<rparr> else t1);
          t3 = (if shouldRemovePreferenceValues d then mapMarkerData removePreferenceValue t2 else t2)
      in case shouldFilterToCommittedRange d of
           None \<Rightarrow> t3
         | Some r \<Rightarrow> t3\<lparr>samples := clipSamples r (samples t3), markers := clipMarkers r (markers t3)\<rparr>)"

text \<open>
  Thread removal: a surviving thread's new index counts the surviving threads before it;
  a removed thread maps to \<open>None\<close>.
\<close>

definition threadIndexMapping :: "nat \<Rightarrow> ThreadIndex set \<Rightarrow> ThreadIndex option list" where
  "threadIndexMapping n removed =
     map (\<lambda>i. if i \<in> removed then None
              else Some (length (filter (\<lambda>j. j \<notin> removed) [0..<i]))) [0..<n]"

definition newThreadIndex :: "ThreadIndex option list \<Rightarrow> ThreadIndex \<Rightarrow> ThreadIndex option" where
  "newThreadIndex mapping threadIndex =
     (case js_index mapping (int threadIndex) of None \<Rightarrow> None | Some new \<Rightarrow> new)"

text \<open>
  Tracks are rewritten through the mapping: a process track whose main thread was removed
  is degraded to a track without main thread, a thread track whose thread was removed is
  removed.
\<close>

fun sanitizeGlobalTrack :: "ThreadIndex option list \<Rightarrow> GlobalTrack \<Rightarrow> GlobalTrack" where
  "sanitizeGlobalTrack mapping (ProcessTrack pid (Some mainThreadIndex)) =
     ProcessTrack pid (newThreadIndex mapping mainThreadIndex)"
| "sanitizeGlobalTrack mapping globalTrack = globalTrack"

fun sanitizeLocalTracks :: "ThreadIndex option list \<Rightarrow> LocalTrack list \<Rightarrow> LocalTrack list" where
  "sanitizeLocalTracks mapping [] = []"
| "sanitizeLocalTracks mapping (ThreadTrack threadIndex # localTracks) =
     (case newThreadIndex mapping threadIndex of
        None \<Rightarrow> sanitizeLocalTracks mapping localTracks
      | Some new \<Rightarrow> ThreadTrack new # sanitizeLocalTracks mapping localTracks)"
| "sanitizeLocalTracks mapping (localTrack # localTracks) =
     localTrack # sanitizeLocalTracks mapping localTracks"

definition sanitizeTracks :: "ThreadIndex option list \<Rightarrow> Tracks \<Rightarrow> Tracks" where
  "sanitizeTracks mapping ts =
     \<lparr>globalList = map (sanitizeGlobalTrack mapping) (globalList ts),
      localListsByPid =
        map (\<lambda>(pid, localTracks). (pid, sanitizeLocalTracks mapping localTracks)) (localListsByPid ts)\<rparr>"

definition sanitizeMeta :: "RemoveProfileInformation \<Rightarrow> ProfileMeta \<Rightarrow> ProfileMeta" where
  "sanitizeMeta d m =
     (let m1 = (if shouldRemoveUrls d then m\<lparr>url := None\<rparr> else m)
      in if shouldRemoveExtensions d then m1\<lparr>extensions := []\<rparr> else m1)"

text \<open>
  Modelled from the spec: \<open>sanitize(profile, directive)\<close>. With the \<open>null\<close> directive
  the input profile is returned as it is, with no committed range and the identity mapping.
  Otherwise a thread index to remove that lies outside the profile fails with
  \<open>InvalidThreadIndex\<close>; else every thread is sanitized, the threads to remove are left
  out, the tracks are rewritten through the mapping, and a committed range that was
  filtered to is returned relative to its own start.
\<close>

definition sanitizePII ::
  "Profile \<Rightarrow> RemoveProfileInformation option \<Rightarrow> js_error + SanitizeProfileResult" where
  "sanitizePII p directive =
     (case directive of
        None \<Rightarrow>
          Inr \<lparr>profile = p, committedRange = None,
               oldThreadIndexToNew = map Some [0..<length (threads p)]\<rparr>
      | Some d \<Rightarrow>
          if \<exists>threadIndex \<in> shouldRemoveThreads d. length (threads p) \<le> threadIndex
          then Inl (Error ''InvalidThreadIndex'')
          else
            (let mapping = threadIndexMapping (length (threads p)) (shouldRemoveThreads d);
                 sanitized = map (\<lambda>(threadIndex, t). sanitizeThread d threadIndex t)
                               (zip [0..<length (threads p)] (threads p))
             in Inr \<lparr>profile =
                       \<lparr>meta = sanitizeMeta d (meta p),
                        threads = keepRows (\<lambda>threadIndex. threadIndex \<notin> shouldRemoveThreads d) sanitized,
                        tracks = sanitizeTracks mapping (tracks p)\<rparr>,
                     committedRange =
                       map_option (\<lambda>r. (0, snd r - fst r)) (shouldFilterToCommittedRange d),
                     oldThreadIndexToNew = mapping\<rparr>))"

section \<open>selectors/publish.js: getSanitizedProfile\<close>

text \<open>
  \<open>createSelector(getProfile, getRemoveProfileInformation, sanitizePII)\<close>: the sanitizer
  applied to the profile and to the directive the selector above returns.
\<close>

definition getSanitizedProfile ::
  "CheckedSharingOptions \<Rightarrow> Profile \<Rightarrow> StartEndRange \<Rightarrow> TrackIndex list
     \<Rightarrow> (Pid \<times> TrackIndex list) list \<Rightarrow> GlobalTrack list \<Rightarrow> (Pid \<times> LocalTrack list) list
     \<Rightarrow> js_error + SanitizeProfileResult" where
  "getSanitizedProfile checkedSharingOptions p committed hiddenGlobalTracks
       hiddenLocalTracksByPid globalTracks localTracksByPid =
     (case getRemoveProfileInformation checkedSharingOptions p committed hiddenGlobalTracks
             hiddenLocalTracksByPid globalTracks localTracksByPid of
        Inl e \<Rightarrow> Inl e
      | Inr directive \<Rightarrow> sanitizePII p directive)"

section \<open>profile-logic/profile-data.js: call node paths\<close>

text \<open>
  Modelled from the spec: \<open>getCallNodePathFromIndex\<close>, which \<open>FlameGraph.js\<close> imports
  from \<open>profile-logic/profile-data\<close> and calls with the selected call node index, and its
  inverse \<open>getIndexFromCallNodePath\<close>; their source is not part of the verified files.
  The definitions follow section 4.2 of the specification.
\<close>

type_synonym CallNodePath = "nat list"

text \<open>
  Modelled from the spec: the walk of \<open>getCallNodePathFromIndex\<close> along the \<open>prefix\<close>
  pointers, from the node to the root (-1), pushing \<open>func\<close> at each step. The first
  argument is the guard against cycles of section 7: a walk that takes more steps than the
  table has call nodes visits one of them twice, and one that leaves the table has met a
  dangling pointer; both fail with \<open>MalformedStackTable\<close>.
\<close>

fun walkPrefixes :: "nat \<Rightarrow> CallNodeTable \<Rightarrow> int \<Rightarrow> CallNodePath \<Rightarrow> js_error + CallNodePath" where
  "walkPrefixes 0 callNodeTable fs callNodePath =
     (if fs = -1 then Inr callNodePath else Inl (Error ''MalformedStackTable''))"
| "walkPrefixes (Suc guard) callNodeTable fs callNodePath =
     (if fs = -1 then Inr callNodePath
      else
        (case js_index (func callNodeTable) fs of
           None \<Rightarrow> Inl (Error ''MalformedStackTable'')
         | Some f \<Rightarrow>
             (case js_index (prefix callNodeTable) fs of
                None \<Rightarrow> Inl (Error ''MalformedStackTable'')
              | Some p \<Rightarrow> walkPrefixes guard callNodeTable p (callNodePath @ [f]))))"

text \<open>
  Modelled from the spec: \<open>getCallNodePathFromIndex(callNodeIndex, callNodeTable)\<close> walks
  the prefix pointers and reverses what it collected; for the \<open>null\<close> index (nothing
  selected) it is the empty path.
\<close>

definition getCallNodePathFromIndex ::
  "IndexIntoCallNodeTable option \<Rightarrow> CallNodeTable \<Rightarrow> js_error + CallNodePath" where
  "getCallNodePathFromIndex callNodeIndex callNodeTable =
     (case callNodeIndex of
        None \<Rightarrow> Inr []
      | Some i \<Rightarrow>
          (case walkPrefixes (length (prefix callNodeTable)) callNodeTable (int i) [] of
             Inl e \<Rightarrow> Inl e
           | Inr callNodePath \<Rightarrow> Inr (rev callNodePath)))"

text \<open>
  Modelled from the spec: \<open>getIndexFromCallNodePath\<close> walks the path again against the
  current table: from the root, each function of the path selects the first call node
  with that function whose prefix is the node reached so far. When there is none the
  result is \<open>null\<close> (no match); the empty path resolves to no call node.
\<close>

definition findChild :: "CallNodeTable \<Rightarrow> int \<Rightarrow> nat \<Rightarrow> IndexIntoCallNodeTable option" where
  "findChild callNodeTable parent f =
     find (\<lambda>i. js_index (prefix callNodeTable) (int i) = Some parent \<and>
               js_index (func callNodeTable) (int i) = Some f)
          [0..<length (prefix callNodeTable)]"

fun resolveFrom :: "CallNodeTable \<Rightarrow> int \<Rightarrow> CallNodePath \<Rightarrow> int option" where
  "resolveFrom callNodeTable current [] = Some current"
| "resolveFrom callNodeTable current (f # callNodePath) =
     (case findChild callNodeTable current f of
        None \<Rightarrow> None
      | Some child \<Rightarrow> resolveFrom callNodeTable (int child) callNodePath)"

definition getIndexFromCallNodePath ::
  "CallNodePath \<Rightarrow> CallNodeTable \<Rightarrow> IndexIntoCallNodeTable option" where
  "getIndexFromCallNodePath callNodePath callNodeTable =
     (case resolveFrom callNodeTable (-1) callNodePath of
        None \<Rightarrow> None
      | Some current \<Rightarrow> if current = -1 then None else Some (nat current))"

text \<open>A two-thread profile and a set of sharing options, used to exercise the theorems below.\<close>

definition exampleThread :: Thread where
  "exampleThread =
     \<lparr>samples = \<lparr>time = [0, 1], stack = [Some 0, None], responsiveness = [0, 0]\<rparr>,
      stackTable = \<lparr>stackPrefix = [-1], stackFrame = [0], stackCategory = [0], stackDepth = [0]\<rparr>,
      frameTable = [0],
      markers = \<lparr>markerStartTime = [0], markerEndTime = [Some 1],
                 markerName = [''PreferenceRead''],
                 markerData = [PreferencePayload ''testing'' ''testing'']\<rparr>\<rparr>"

definition exampleProfile :: Profile where
  "exampleProfile =
     \<lparr>meta = \<lparr>startTime = 0, product = ''Firefox'', interval = 1, url = None, extensions = []\<rparr>,
      threads = [exampleThread, exampleThread],
      tracks = \<lparr>globalList = [ProcessTrack 0 (Some 0)],
                localListsByPid = [(0, [ThreadTrack 1])]\<rparr>\<rparr>"

definition exampleOptions :: CheckedSharingOptions where
  "exampleOptions =
     \<lparr>includeHiddenThreads = False, includeFullTimeRange = True, includeScreenshots = False,
      includeUrls = True, includeExtension = True, includePreferenceValues = True\<rparr>"

definition includeEverything :: CheckedSharingOptions where
  "includeEverything =
     \<lparr>includeHiddenThreads = True, includeFullTimeRange = True, includeScreenshots = True,
      includeUrls = True, includeExtension = True, includePreferenceValues = True\<rparr>"

section \<open>Rounding to binary64\<close>

text \<open>
  The exponent is the right one, the integer rounding is to a nearest integer, and so a
  finite result of \<open>roundToDouble\<close> is a multiple \<open>m * q\<close> of the spacing with
  \<open>\<bar>m\<bar> \<le> 2 ^ 53\<close> that lies within half a spacing of the exact value.
\<close>

lemma pow2_pos: "0 < pow2 e"
  by (simp add: pow2_def)

lemma pow2_nonneg_int: "0 \<le> e \<Longrightarrow> pow2 e = 2 ^ nat e"
  by (simp add: pow2_def)

lemma pow2_neg: "0 \<le> k \<Longrightarrow> pow2 (- k) = 1 / 2 ^ nat k"
  by (cases "k = 0") (simp_all add: pow2_def)

lemma of_int_le_power2: "(n::int) \<le> 2 ^ k \<Longrightarrow> (of_int n :: rat) \<le> 2 ^ k"
proof -
  assume "n \<le> 2 ^ k"
  then have "(of_int n :: rat) \<le> of_int (2 ^ k)" by (simp only: of_int_le_iff)
  then show ?thesis by simp
qed

lemma power2_le_of_int: "2 ^ k \<le> (n::int) \<Longrightarrow> 2 ^ k \<le> (of_int n :: rat)"
proof -
  assume "2 ^ k \<le> n"
  then have "(of_int (2 ^ k) :: rat) \<le> of_int n" by (simp only: of_int_le_iff)
  then show ?thesis by simp
qed

lemma floorLog2_bounds:
  assumes "0 < a"
  shows "pow2 (floorLog2 a) \<le> a \<and> a < pow2 (floorLog2 a + 1)"
proof (cases "1 \<le> a")
  case True
  define n where "n = \<lfloor>a\<rfloor>"
  have n: "1 \<le> n" using True by (simp add: n_def le_floor_iff)
  then have pos: "0 < n" by simp
  from bitlen_bounds[OF pos] have b: "2 ^ nat (bitlen n - 1) \<le> n" "n < 2 ^ nat (bitlen n)" by auto
  have bl: "1 \<le> bitlen n" using pos by (simp add: bitlen_alt_def)
  have e: "floorLog2 a = bitlen n - 1" using True by (simp add: floorLog2_def n_def)
  have "2 ^ nat (bitlen n - 1) \<le> (of_int n :: rat)" using b(1) by (rule power2_le_of_int)
  also have "\<dots> \<le> a" unfolding n_def by linarith
  finally have lo: "pow2 (floorLog2 a) \<le> a" using bl by (simp add: e pow2_def)
  have "n + 1 \<le> 2 ^ nat (bitlen n)" using b(2) by simp
  then have "(of_int (n + 1) :: rat) \<le> 2 ^ nat (bitlen n)" by (rule of_int_le_power2)
  moreover have "a < of_int (n + 1)" unfolding n_def by linarith
  ultimately have "a < 2 ^ nat (bitlen n)" by linarith
  then have hi: "a < pow2 (floorLog2 a + 1)" using bl by (simp add: e pow2_def)
  from lo hi show ?thesis by simp
next
  case False
  define y where "y = 1 / a"
  define n where "n = \<lceil>y\<rceil>"
  define k where "k = bitlen (n - 1)"
  have y: "1 < y" using False assms by (simp add: y_def)
  have n: "2 \<le> n" using y by (simp add: n_def le_ceiling_iff)
  then have pos: "0 < n - 1" by simp
  from bitlen_bounds[OF pos] have b: "2 ^ nat (k - 1) \<le> n - 1" "n - 1 < 2 ^ nat k"
    by (auto simp: k_def)
  have k1: "1 \<le> k" using pos by (simp add: k_def bitlen_alt_def)
  have e: "floorLog2 a = - k" using False by (simp add: floorLog2_def k_def n_def y_def)
  have "n \<le> 2 ^ nat k" using b(2) by simp
  then have "(of_int n :: rat) \<le> 2 ^ nat k" by (rule of_int_le_power2)
  moreover have "y \<le> of_int n" unfolding n_def by linarith
  ultimately have yk: "y \<le> 2 ^ nat k" by linarith
  have "1 / 2 ^ nat k \<le> a"
  proof -
    from yk have "1 / a \<le> 2 ^ nat k" by (simp add: y_def)
    then have "1 \<le> 2 ^ nat k * a" using assms by (simp add: field_simps)
    then show ?thesis by (simp add: field_simps)
  qed
  then have lo: "pow2 (floorLog2 a) \<le> a" using k1 by (simp add: e pow2_neg)
  have "2 ^ nat (k - 1) \<le> (of_int (n - 1) :: rat)" using b(1) by (rule power2_le_of_int)
  moreover have "of_int (n - 1) < y"
    unfolding n_def by linarith
  ultimately have "2 ^ nat (k - 1) < y" by linarith
  then have "2 ^ nat (k - 1) * a < 1" using assms by (simp add: y_def field_simps)
  then have "a < 1 / 2 ^ nat (k - 1)" by (simp add: field_simps)
  moreover have "pow2 (floorLog2 a + 1) = 1 / 2 ^ nat (k - 1)"
    using k1 pow2_neg[of "k - 1"] by (simp add: e)
  ultimately have hi: "a < pow2 (floorLog2 a + 1)" by simp
  from lo hi show ?thesis by simp
qed

lemma roundHalfEven_nearest: "\<bar>r - of_int (roundHalfEven r)\<bar> \<le> 1 / 2"
proof -
  have "of_int \<lfloor>r\<rfloor> \<le> r" "r < of_int \<lfloor>r\<rfloor> + 1" by linarith+
  then show ?thesis
    by (auto simp: roundHalfEven_def Let_def)
qed


lemma roundToDouble_nearest:
  assumes "roundToDouble x = Finite r"
  shows "\<exists>m q. q = pow2 (max (floorLog2 \<bar>x\<bar>) (- 1022) - 52) \<and>
               r = of_int m * q \<and> \<bar>m\<bar> \<le> 2 ^ 53 \<and> \<bar>x - r\<bar> \<le> q / 2"
proof (cases "x = 0")
  case True
  with assms have "r = 0" by (simp add: roundToDouble_def)
  with True show ?thesis
    by (intro exI[of _ 0] exI[of _ "pow2 (max (floorLog2 \<bar>x\<bar>) (- 1022) - 52)"])
       (simp add: pow2_pos less_imp_le)
next
  case False
  define e where "e = max (floorLog2 \<bar>x\<bar>) (- 1022)"
  define q where "q = pow2 (e - 52)"
  define m where "m = roundHalfEven (\<bar>x\<bar> / q)"
  have q: "0 < q" by (simp add: q_def pow2_pos)
  have r: "r = (if 0 < x then of_int m * q else - (of_int m * q))"
    and fin: "\<not> (1023 < e \<or> (e = 1023 \<and> m = 9007199254740992))"
    using assms False
    by (auto simp: roundToDouble_def Let_def e_def q_def m_def split: if_splits)
  have "\<bar>\<bar>x\<bar> / q - of_int m\<bar> \<le> 1 / 2"
    unfolding m_def by (rule roundHalfEven_nearest)
  then have "\<bar>\<bar>x\<bar> / q - of_int m\<bar> * q \<le> 1 / 2 * q"
    using q by (simp add: mult_right_mono)
  moreover have "\<bar>\<bar>x\<bar> / q - of_int m\<bar> * q = \<bar>\<bar>x\<bar> - of_int m * q\<bar>"
  proof -
    have "\<bar>\<bar>x\<bar> / q - of_int m\<bar> * q = \<bar>(\<bar>x\<bar> / q - of_int m) * q\<bar>"
      using q by (simp add: abs_mult)
    also have "(\<bar>x\<bar> / q - of_int m) * q = \<bar>x\<bar> - of_int m * q"
      using q by (simp add: field_simps)
    finally show ?thesis .
  qed
  ultimately have near: "\<bar>\<bar>x\<bar> - of_int m * q\<bar> \<le> q / 2" by simp
  have m0: "0 \<le> m"
  proof -
    have "0 \<le> \<bar>x\<bar> / q" using q by simp
    then have "0 \<le> \<lfloor>\<bar>x\<bar> / q\<rfloor>" by simp
    then show ?thesis by (auto simp: m_def roundHalfEven_def Let_def)
  qed
  have mle: "m \<le> 2 ^ 53"
  proof -
    have ub: "\<bar>x\<bar> < pow2 (e + 1)"
    proof -
      have "\<bar>x\<bar> < pow2 (floorLog2 \<bar>x\<bar> + 1)" using floorLog2_bounds[of "\<bar>x\<bar>"] False by simp
      also have "\<dots> \<le> pow2 (e + 1)"
        by (auto simp: e_def pow2_def max_def field_simps intro!: power_increasing
            simp: nat_le_iff)
      finally show ?thesis .
    qed
    have "pow2 (e + 1) = 2 ^ 53 * q"
    proof (cases "52 \<le> e")
      case True
      then have "nat (e + 1) = 53 + nat (e - 52)" by simp
      then show ?thesis using True by (simp add: q_def pow2_def power_add)
    next
      case l: False
      show ?thesis
      proof (cases "0 \<le> e + 1")
        case True
        then have "nat (e + 1) + nat (52 - e) = 53" using l by simp
        then have "(2::rat) ^ 53 = 2 ^ nat (e + 1) * 2 ^ nat (52 - e)"
          by (simp add: power_add[symmetric])
        then have "(2::rat) ^ nat (e + 1) = 2 ^ 53 / 2 ^ nat (52 - e)"
          by (simp add: eq_divide_eq)
        then show ?thesis using True l by (simp add: q_def pow2_def)
      next
        case False
        then have "nat (52 - e) = 53 + nat (- e - 1)" by simp
        then have "(2::rat) ^ nat (52 - e) = 2 ^ 53 * 2 ^ nat (- e - 1)"
          by (simp add: power_add)
        moreover have "- (e + 1) = - e - 1" by simp
        ultimately show ?thesis using False l by (simp add: q_def pow2_def)
      qed
    qed
    with ub have "\<bar>x\<bar> / q < 2 ^ 53" using q by (simp add: field_simps)
    then have "\<lfloor>\<bar>x\<bar> / q\<rfloor> < 2 ^ 53" by (simp add: floor_less_iff)
    then show ?thesis by (auto simp: m_def roundHalfEven_def Let_def)
  qed
  have "\<bar>x - r\<bar> \<le> q / 2"
  proof (cases "0 < x")
    case True
    with near r show ?thesis by simp
  next
    case neg: False
    with False have "x < 0" by simp
    then have "\<bar>x - r\<bar> = \<bar>\<bar>x\<bar> - of_int m * q\<bar>" using r by simp
    with near show ?thesis by simp
  qed
  moreover have "r = of_int (if 0 < x then m else - m) * q" using r by simp
  moreover have "\<bar>if 0 < x then m else - m\<bar> \<le> 2 ^ 53" using m0 mle by simp
  ultimately show ?thesis
    unfolding q_def e_def by blast
qed

text \<open>Known values: the doubles of 0.1 and 0.501, a tie, and \<open>0.501 - 0.5\<close>.\<close>

lemma roundToDouble_known_values:
  "roundToDouble (1 / 10) = Finite (3602879701896397 / 36028797018963968)"
  "roundToDouble (501 / 1000) = Finite (4512606826625237 / 9007199254740992)"
  "roundToDouble 9007199254740993 = Finite 9007199254740992"
  "js_minus (Finite (4512606826625237 / 9007199254740992)) (Finite (1 / 2))
     = Finite (9007199254741 / 9007199254740992)"
  by code_simp+

text \<open>The bounds of the example rows are doubles: rounding leaves them as they are.\<close>

lemma example_bounds_are_doubles:
  "map (\<lambda>x. case x of Finite r \<Rightarrow> roundToDouble r | _ \<Rightarrow> x)
       (start exampleRow @ end' exampleRow @ start decimalRow @ end' decimalRow)
     = start exampleRow @ end' exampleRow @ start decimalRow @ end' decimalRow"
  by code_simp

section \<open>Keyboard navigation in the flame graph\<close>


lemma indexOf_first:
  "c < length xs \<Longrightarrow> xs ! c = x \<Longrightarrow> (\<forall>j<c. xs ! j \<noteq> x) \<Longrightarrow> indexOf xs x = int c"
proof (induction xs arbitrary: c)
  case Nil
  then show ?case by simp
next
  case (Cons y ys)
  show ?case
  proof (cases c)
    case 0
    with Cons.prems show ?thesis by simp
  next
    case (Suc k)
    with Cons.prems have ne: "y \<noteq> x" by auto
    from Suc Cons.prems have "indexOf ys x = int k"
      by (intro Cons.IH) auto
    with ne Suc show ?thesis by (simp add: Let_def)
  qed
qed


lemma indexOf_absent: "x \<notin> set xs \<Longrightarrow> indexOf xs x = - 1"
  by (induction xs) (auto simp: Let_def)


lemma js_minus_NaN_right: "js_minus x NaN = NaN"
  by (cases x) simp_all

lemma widerThanThreshold_iff:
  "widerThanThreshold row c \<longleftrightarrow>
     0 \<le> c \<and> nat c < length (end' row) \<and> nat c < length (start row) \<and>
     js_gt (js_minus (end' row ! nat c) (start row ! nat c)) SELECTABLE_THRESHOLD"
  by (auto simp: widerThanThreshold_def js_index_def js_minus_NaN_right)




lemma rowOfCallNode_eq:
  "i < length (depth tbl) \<Longrightarrow> depth tbl ! i < length ft \<Longrightarrow>
     rowOfCallNode ft tbl i = Inr (ft ! (depth tbl ! i))"
  by (simp add: rowOfCallNode_def js_index_def)

lemma js_gt_irrefl: "\<not> js_gt x x"
  by (cases x) simp_all

text \<open>The double that the literal 0.001 denotes lies a little above 1 / 1000.\<close>

lemma SELECTABLE_THRESHOLD_value:
  "SELECTABLE_THRESHOLD = Finite (1152921504606847 / 1152921504606846976)"
  by code_simp





text \<open>
  Claim C5. A call node's box is selectable exactly when \<open>end - start\<close>, the difference
  the code computes in binary64, is strictly greater than the threshold 0.001, the double
  that this literal denotes; so a box whose computed width is exactly 0.001 is not
  selectable. The box is read from the \<open>FlameGraphTiming\<close> row at the call node's depth,
  at the column where \<open>indexOf\<close> finds the call node. Where the difference of two finite
  bounds is itself a double, the test is the comparison of the exact width with the value
  1152921504606847 / 2 ^ 60 of the threshold.
\<close>

theorem C5_wideEnough_threshold:
  assumes "i < length (depth tbl)"
    and "depth tbl ! i < length ft"
    and "row = ft ! (depth tbl ! i)"
    and "c < length (callNode row)"
    and "callNode row ! c = i"
    and "\<forall>j<c. callNode row ! j \<noteq> i"
    and "c < length (start row)"
    and "c < length (end' row)"
  shows "wideEnough ft tbl i =
           Inr (js_gt (js_minus (end' row ! c) (start row ! c)) SELECTABLE_THRESHOLD) \<and>
         (js_minus (end' row ! c) (start row ! c) = SELECTABLE_THRESHOLD
            \<longrightarrow> wideEnough ft tbl i = Inr False) \<and>
         (\<forall>e s. end' row ! c = Finite e \<and> start row ! c = Finite s \<and>
                 roundToDouble (e - s) = Finite (e - s)
            \<longrightarrow> wideEnough ft tbl i = Inr (1152921504606847 / 1152921504606846976 < e - s))"
proof -
  have r: "rowOfCallNode ft tbl i = Inr row"
    using assms(1-3) by (simp add: rowOfCallNode_eq)
  have c: "indexOf (callNode row) i = int c"
    using assms(4-6) by (rule indexOf_first)
  have w: "widerThanThreshold row (int c) \<longleftrightarrow>
             js_gt (js_minus (end' row ! c) (start row ! c)) SELECTABLE_THRESHOLD"
    using assms(7,8) by (simp add: widerThanThreshold_iff)
  have res: "wideEnough ft tbl i =
               Inr (js_gt (js_minus (end' row ! c) (start row ! c)) SELECTABLE_THRESHOLD)"
    by (simp add: wideEnough_def r c w)
  have exact: "wideEnough ft tbl i = Inr (1152921504606847 / 1152921504606846976 < e - s)"
    if "end' row ! c = Finite e" "start row ! c = Finite s"
      "roundToDouble (e - s) = Finite (e - s)" for e s
    using that by (simp add: res SELECTABLE_THRESHOLD_value)
  from res exact show ?thesis
    by (auto simp: js_gt_irrefl)
qed

text \<open>
  The theorem at the example timings. The box of call node 2 in \<open>exampleTiming\<close> is
  exactly as wide as the threshold, so it is not selectable; call node 3 is. In
  \<open>decimalTiming\<close> the box [0.5, 0.501] of call node 2 is selectable: in binary64 the
  difference is 0.0010000000000000009.
\<close>

theorem C5_wideEnough_threshold_witness:
  "wideEnough exampleTiming exampleCallNodeTable 2 = Inr False \<and>
   wideEnough exampleTiming exampleCallNodeTable 3 = Inr True \<and>
   wideEnough decimalTiming exampleCallNodeTable 2 = Inr True"
proof -
  have d: "2 < length (depth exampleCallNodeTable)" "3 < length (depth exampleCallNodeTable)"
    "depth exampleCallNodeTable ! 2 < length exampleTiming"
    "depth exampleCallNodeTable ! 3 < length exampleTiming"
    "depth exampleCallNodeTable ! 2 < length decimalTiming"
    by (simp_all add: exampleCallNodeTable_def exampleTiming_def decimalTiming_def)
  have row: "exampleRow = exampleTiming ! (depth exampleCallNodeTable ! 2)"
    "exampleRow = exampleTiming ! (depth exampleCallNodeTable ! 3)"
    "decimalRow = decimalTiming ! (depth exampleCallNodeTable ! 2)"
    by (simp_all add: exampleCallNodeTable_def exampleTiming_def decimalTiming_def)
  have col: "1 < length (callNode exampleRow)" "callNode exampleRow ! 1 = 2"
    "\<forall>j<1. callNode exampleRow ! j \<noteq> 2"
    "2 < length (callNode exampleRow)" "callNode exampleRow ! 2 = 3"
    "\<forall>j<2. callNode exampleRow ! j \<noteq> 3"
    by (simp_all add: exampleRow_def less_Suc_eq numeral_2_eq_2)
  have dcol: "1 < length (callNode decimalRow)" "callNode decimalRow ! 1 = 2"
    "\<forall>j<1. callNode decimalRow ! j \<noteq> 2"
    by (simp_all add: decimalRow_def)
  have len: "1 < length (start exampleRow)" "1 < length (end' exampleRow)"
    "2 < length (start exampleRow)" "2 < length (end' exampleRow)"
    "1 < length (start decimalRow)" "1 < length (end' decimalRow)"
    by (simp_all add: exampleRow_def decimalRow_def)
  have w: "js_gt (js_minus (end' exampleRow ! 1) (start exampleRow ! 1)) SELECTABLE_THRESHOLD = False"
    "js_gt (js_minus (end' exampleRow ! 2) (start exampleRow ! 2)) SELECTABLE_THRESHOLD = True"
    "js_gt (js_minus (end' decimalRow ! 1) (start decimalRow ! 1)) SELECTABLE_THRESHOLD = True"
    by code_simp+
  have a: "wideEnough exampleTiming exampleCallNodeTable 2 = Inr False"
    using C5_wideEnough_threshold[OF d(1) d(3) row(1) col(1-3) len(1,2), THEN conjunct1]
    by (simp only: w)
  have b: "wideEnough exampleTiming exampleCallNodeTable 3 = Inr True"
    using C5_wideEnough_threshold[OF d(2) d(4) row(2) col(4-6) len(3,4), THEN conjunct1]
    by (simp only: w)
  have c: "wideEnough decimalTiming exampleCallNodeTable 2 = Inr True"
    using C5_wideEnough_threshold[OF d(1) d(5) row(3) dcol(1-3) len(5,6), THEN conjunct1]
    by (simp only: w)
  from a b c show ?thesis by simp
qed




section \<open>The sanitization directive built by the selector\<close>

lemma thread_indexes:
  "map (\<lambda>(_, threadIndex). threadIndex) (zip xs [0..<length xs]) = [0..<length xs]"
proof -
  have "(\<lambda>(_, threadIndex). threadIndex) = (snd :: 'a \<times> nat \<Rightarrow> nat)" by auto
  then show ?thesis by (simp add: map_snd_zip)
qed

text \<open>
  Claim C9. Whenever \<open>getRemoveProfileInformation\<close> returns a directive that is not
  \<open>null\<close>, its \<open>shouldRemoveThreadsWithScreenshots\<close> is empty when
  \<open>includeScreenshots\<close> is checked and is the set of all thread indexes
  \<open>0 .. threads.length - 1\<close> of the profile when it is not checked: never a proper,
  non-empty subset.
\<close>

theorem C9_screenshot_threads_all_or_none:
  assumes "getRemoveProfileInformation opts p cr hiddenGlobal hiddenLocal globals locals = Inr (Some d)"
  shows "(includeScreenshots opts \<longrightarrow> shouldRemoveThreadsWithScreenshots d = {}) \<and>
         (\<not> includeScreenshots opts \<longrightarrow>
            shouldRemoveThreadsWithScreenshots d = {i. i < length (threads p)})"
  using assms
  by (auto simp: getRemoveProfileInformation_def thread_indexes split: if_splits sum.splits)

text \<open>
  The theorem at the two-thread profile, with the process track 0 hidden and neither
  hidden threads nor screenshots included.
\<close>

theorem C9_screenshot_threads_all_or_none_witness:
  "\<exists>d. getRemoveProfileInformation exampleOptions exampleProfile (0, 1) [0] [] 
          [ProcessTrack 0 (Some 0)] [(0, [ThreadTrack 1])] = Inr (Some d) \<and>
       shouldRemoveThreads d = {0, 1} \<and>
       shouldRemoveThreadsWithScreenshots d = {0, 1}"
proof -
  have e: "getRemoveProfileInformation exampleOptions exampleProfile (0, 1) [0] []
          [ProcessTrack 0 (Some 0)] [(0, [ThreadTrack 1])]
        = Inr (Some \<lparr>shouldFilterToCommittedRange = None, shouldRemoveUrls = False,
              shouldRemoveThreadsWithScreenshots = {0, 1}, shouldRemoveThreads = {0, 1},
              shouldRemoveExtensions = False, shouldRemovePreferenceValues = False\<rparr>)"
    by (auto simp: getRemoveProfileInformation_def isIncludingEverything_def objectValues_def
        exampleOptions_def exampleProfile_def js_index_def)
  from C9_screenshot_threads_all_or_none[OF e] e show ?thesis
    by (simp add: exampleOptions_def)
qed

section \<open>Publishing without sanitization\<close>

lemma isIncludingEverything_iff:
  "isIncludingEverything opts \<longleftrightarrow>
     includeHiddenThreads opts \<and> includeFullTimeRange opts \<and> includeScreenshots opts \<and>
     includeUrls opts \<and> includeExtension opts \<and> includePreferenceValues opts"
  by (auto simp: isIncludingEverything_def objectValues_def)

lemma getRemoveProfileInformation_null_iff:
  "getRemoveProfileInformation opts p cr hiddenGlobal hiddenLocal globals locals = Inr None
     \<longleftrightarrow> isIncludingEverything opts"
  by (auto simp: getRemoveProfileInformation_def split: sum.splits)

text \<open>
  Claim C1. For every profile, the sanitizer called with the \<open>null\<close> directive returns
  the input profile itself, no committed range and the identity mapping of thread indexes.
  \<open>getRemoveProfileInformation\<close> returns the \<open>null\<close> directive exactly when every
  checked sharing option is true, and in that case \<open>getSanitizedProfile\<close>, the whole
  pipeline, returns the profile unchanged.
\<close>

theorem C1_no_sanitization_is_identity:
  "sanitizePII p None =
     Inr \<lparr>profile = p, committedRange = None,
          oldThreadIndexToNew = map Some [0..<length (threads p)]\<rparr> \<and>
   (getRemoveProfileInformation opts p cr hiddenGlobal hiddenLocal globals locals = Inr None
      \<longleftrightarrow> includeHiddenThreads opts \<and> includeFullTimeRange opts \<and> includeScreenshots opts \<and>
          includeUrls opts \<and> includeExtension opts \<and> includePreferenceValues opts) \<and>
   (includeHiddenThreads opts \<and> includeFullTimeRange opts \<and> includeScreenshots opts \<and>
    includeUrls opts \<and> includeExtension opts \<and> includePreferenceValues opts
      \<longrightarrow> getSanitizedProfile opts p cr hiddenGlobal hiddenLocal globals locals =
            Inr \<lparr>profile = p, committedRange = None,
                 oldThreadIndexToNew = map Some [0..<length (threads p)]\<rparr>)"
proof (intro conjI impI)
  show n: "sanitizePII p None =
     Inr \<lparr>profile = p, committedRange = None,
          oldThreadIndexToNew = map Some [0..<length (threads p)]\<rparr>"
    by (simp add: sanitizePII_def)
  show "getRemoveProfileInformation opts p cr hiddenGlobal hiddenLocal globals locals = Inr None
      \<longleftrightarrow> includeHiddenThreads opts \<and> includeFullTimeRange opts \<and> includeScreenshots opts \<and>
          includeUrls opts \<and> includeExtension opts \<and> includePreferenceValues opts"
    by (simp only: getRemoveProfileInformation_null_iff isIncludingEverything_iff)
  assume "includeHiddenThreads opts \<and> includeFullTimeRange opts \<and> includeScreenshots opts \<and>
    includeUrls opts \<and> includeExtension opts \<and> includePreferenceValues opts"
  then have "isIncludingEverything opts" by (simp only: isIncludingEverything_iff)
  then have "getRemoveProfileInformation opts p cr hiddenGlobal hiddenLocal globals locals = Inr None"
    by (simp only: getRemoveProfileInformation_null_iff)
  then show "getSanitizedProfile opts p cr hiddenGlobal hiddenLocal globals locals =
            Inr \<lparr>profile = p, committedRange = None,
                 oldThreadIndexToNew = map Some [0..<length (threads p)]\<rparr>"
    by (simp add: getSanitizedProfile_def n)
qed

text \<open>
  The theorem at the two-thread profile: with every option checked the pipeline returns
  the profile; with two options unchecked the directive is not \<open>null\<close>.
\<close>

theorem C1_no_sanitization_is_identity_witness:
  "getSanitizedProfile includeEverything exampleProfile (0, 1) [0] []
      [ProcessTrack 0 (Some 0)] [(0, [ThreadTrack 1])] =
     Inr \<lparr>profile = exampleProfile, committedRange = None, oldThreadIndexToNew = [Some 0, Some 1]\<rparr> \<and>
   getRemoveProfileInformation exampleOptions exampleProfile (0, 1) [0] []
      [ProcessTrack 0 (Some 0)] [(0, [ThreadTrack 1])] \<noteq> Inr None"
proof -
  have all: "includeHiddenThreads includeEverything \<and> includeFullTimeRange includeEverything \<and>
      includeScreenshots includeEverything \<and> includeUrls includeEverything \<and>
      includeExtension includeEverything \<and> includePreferenceValues includeEverything"
    by (simp add: includeEverything_def)
  have len: "[0..<length (threads exampleProfile)] = [0, 1]"
    by (simp add: exampleProfile_def upt_rec)
  have a: "getSanitizedProfile includeEverything exampleProfile (0, 1) [0] []
      [ProcessTrack 0 (Some 0)] [(0, [ThreadTrack 1])] =
     Inr \<lparr>profile = exampleProfile, committedRange = None, oldThreadIndexToNew = [Some 0, Some 1]\<rparr>"
    using C1_no_sanitization_is_identity[of exampleProfile includeEverything "(0, 1)" "[0]" "[]"
        "[ProcessTrack 0 (Some 0)]" "[(0, [ThreadTrack 1])]"] all
    by (simp add: len)
  have b: "getRemoveProfileInformation exampleOptions exampleProfile (0, 1) [0] []
      [ProcessTrack 0 (Some 0)] [(0, [ThreadTrack 1])] \<noteq> Inr None"
    using C1_no_sanitization_is_identity[of exampleProfile exampleOptions "(0, 1)" "[0]" "[]"
        "[ProcessTrack 0 (Some 0)]" "[(0, [ThreadTrack 1])]"]
    by (simp add: exampleOptions_def)
  from a b show ?thesis by simp
qed

section \<open>Call node paths as the identity of a selection\<close>

lemma resolveFrom_append:
  "resolveFrom tbl cur (xs @ ys) =
     (case resolveFrom tbl cur xs of None \<Rightarrow> None | Some c \<Rightarrow> resolveFrom tbl c ys)"
  by (induction xs arbitrary: cur) (auto split: option.splits)

lemma findChild_Some:
  assumes "findChild tbl parent f = Some k"
  shows "k < length (prefix tbl) \<and> js_index (prefix tbl) (int k) = Some parent \<and>
         js_index (func tbl) (int k) = Some f"
proof -
  from assms obtain i where i: "i < length [0..<length (prefix tbl)]"
      "js_index (prefix tbl) (int ([0..<length (prefix tbl)] ! i)) = Some parent \<and>
       js_index (func tbl) (int ([0..<length (prefix tbl)] ! i)) = Some f"
      "k = [0..<length (prefix tbl)] ! i"
    unfolding findChild_def find_Some_iff by blast
  then show ?thesis by simp
qed

lemma findChild_unique:
  assumes len: "length (func tbl) = length (prefix tbl)"
    and uniq: "\<forall>i<length (prefix tbl). \<forall>j<length (prefix tbl).
                 prefix tbl ! i = prefix tbl ! j \<and> func tbl ! i = func tbl ! j \<longrightarrow> i = j"
    and k: "k < length (prefix tbl)"
  shows "findChild tbl (prefix tbl ! k) (func tbl ! k) = Some k"
proof (cases "findChild tbl (prefix tbl ! k) (func tbl ! k)")
  case None
  then have "\<not> (\<exists>x\<in>set [0..<length (prefix tbl)].
      js_index (prefix tbl) (int x) = Some (prefix tbl ! k) \<and>
      js_index (func tbl) (int x) = Some (func tbl ! k))"
    unfolding findChild_def find_None_iff by simp
  moreover have "k \<in> set [0..<length (prefix tbl)]" using k by simp
  moreover have "js_index (prefix tbl) (int k) = Some (prefix tbl ! k)"
    "js_index (func tbl) (int k) = Some (func tbl ! k)"
    using k len by (simp_all add: js_index_def)
  ultimately show ?thesis by blast
next
  case (Some j)
  from findChild_Some[OF Some] have j: "j < length (prefix tbl)"
    "prefix tbl ! j = prefix tbl ! k" "func tbl ! j = func tbl ! k"
    using len by (auto simp: js_index_def split: if_splits)
  with uniq k have "j = k" by blast
  with Some show ?thesis by simp
qed


lemma walk_then_resolve:
  assumes len: "length (func tbl) = length (prefix tbl)"
    and acyclic: "\<forall>i<length (prefix tbl).
                    prefix tbl ! i = -1 \<or> (0 \<le> prefix tbl ! i \<and> prefix tbl ! i < int i)"
    and uniq: "\<forall>i<length (prefix tbl). \<forall>j<length (prefix tbl).
                 prefix tbl ! i = prefix tbl ! j \<and> func tbl ! i = func tbl ! j \<longrightarrow> i = j"
  shows "n < length (prefix tbl) \<Longrightarrow> n < guard \<Longrightarrow>
           \<exists>path. walkPrefixes guard tbl (int n) acc = Inr (acc @ path) \<and>
                  resolveFrom tbl (-1) (rev path) = Some (int n)"
proof (induction n arbitrary: guard acc rule: less_induct)
  case (less n)
  from less.prems(2) obtain g where g: "guard = Suc g" by (cases guard) auto
  have rd: "js_index (func tbl) (int n) = Some (func tbl ! n)"
    "js_index (prefix tbl) (int n) = Some (prefix tbl ! n)"
    using less.prems(1) len by (simp_all add: js_index_def)
  have child: "findChild tbl (prefix tbl ! n) (func tbl ! n) = Some n"
    using findChild_unique[OF len uniq less.prems(1)] .
  have step: "walkPrefixes guard tbl (int n) acc =
                walkPrefixes g tbl (prefix tbl ! n) (acc @ [func tbl ! n])"
    by (simp add: g rd)
  show ?case
  proof (cases "prefix tbl ! n = -1")
    case True
    have "walkPrefixes g tbl (- 1) (acc @ [func tbl ! n]) = Inr (acc @ [func tbl ! n])"
      by (cases g) simp_all
    with step True have "walkPrefixes guard tbl (int n) acc = Inr (acc @ [func tbl ! n])"
      by simp
    moreover have "resolveFrom tbl (-1) (rev [func tbl ! n]) = Some (int n)"
      using child True by simp
    ultimately show ?thesis by blast
  next
    case False
    with acyclic less.prems(1) have p: "0 \<le> prefix tbl ! n" "prefix tbl ! n < int n" by auto
    define m where "m = nat (prefix tbl ! n)"
    have m: "int m = prefix tbl ! n" "m < n" using p by (simp_all add: m_def)
    have "m < length (prefix tbl)" "m < g" using m(2) less.prems g by auto
    from less.IH[OF m(2) this, of "acc @ [func tbl ! n]"] obtain path where path:
      "walkPrefixes g tbl (int m) (acc @ [func tbl ! n]) = Inr ((acc @ [func tbl ! n]) @ path)"
      "resolveFrom tbl (-1) (rev path) = Some (int m)" by blast
    have "walkPrefixes guard tbl (int n) acc = Inr (acc @ (func tbl ! n # path))"
      using step path(1) m(1) by simp
    moreover have "resolveFrom tbl (-1) (rev (func tbl ! n # path)) = Some (int n)"
      using path(2) child m(1) by (simp add: resolveFrom_append)
    ultimately show ?thesis by blast
  qed
qed

lemma resolve_then_walk:
  assumes len: "length (func tbl) = length (prefix tbl)"
    and acyclic: "\<forall>i<length (prefix tbl).
                    prefix tbl ! i = -1 \<or> (0 \<le> prefix tbl ! i \<and> prefix tbl ! i < int i)"
  shows "resolveFrom tbl (-1) xs = Some c \<Longrightarrow>
           (xs = [] \<and> c = -1) \<or>
           (0 \<le> c \<and> nat c < length (prefix tbl) \<and>
            (\<forall>guard acc. nat c < guard \<longrightarrow> walkPrefixes guard tbl c acc = Inr (acc @ rev xs)))"
proof (induction xs arbitrary: c rule: rev_induct)
  case Nil
  then show ?case by simp
next
  case (snoc f ys)
  from snoc.prems obtain c' k where c': "resolveFrom tbl (-1) ys = Some c'"
    and k: "findChild tbl c' f = Some k" and c: "c = int k"
    by (auto simp: resolveFrom_append split: option.splits)
  from findChild_Some[OF k] have kk: "k < length (prefix tbl)"
    "js_index (prefix tbl) (int k) = Some c'" "js_index (func tbl) (int k) = Some f" by auto
  then have pk: "prefix tbl ! k = c'" by (auto simp: js_index_def split: if_splits)
  have "walkPrefixes guard tbl c acc = Inr (acc @ rev (ys @ [f]))" if gd: "nat c < guard" for guard acc
  proof -
    from gd c obtain g where g: "guard = Suc g" "k \<le> g" by (cases guard) auto
    have step: "walkPrefixes guard tbl c acc = walkPrefixes g tbl c' (acc @ [f])"
      by (simp add: g c kk)
    from snoc.IH[OF c'] show ?thesis
    proof
      assume "ys = [] \<and> c' = - 1"
      then show ?thesis using step by (cases g) simp_all
    next
      assume a: "0 \<le> c' \<and> nat c' < length (prefix tbl) \<and>
        (\<forall>guard acc. nat c' < guard \<longrightarrow> walkPrefixes guard tbl c' acc = Inr (acc @ rev ys))"
      then have "c' \<noteq> -1" by auto
      with acyclic kk(1) pk have "c' < int k" by auto
      with a g have "nat c' < g" by auto
      with a have "walkPrefixes g tbl c' (acc @ [f]) = Inr ((acc @ [f]) @ rev ys)" by blast
      with step show ?thesis by simp
    qed
  qed
  with kk(1) c show ?case by auto
qed

text \<open>
  Claim C7. In a call-node table that keeps its invariants (the columns have one length,
  every prefix is the root or a smaller index, and no two call nodes share prefix and
  function), the path of every call node resolves back to that call node, and the empty
  path of the \<open>null\<close> selection resolves back to \<open>null\<close>. A path that is the path of no
  call node of the table it is resolved against yields \<open>null\<close>; resolution has no
  error result.
\<close>

theorem C7_call_node_path_round_trip:
  assumes "length (func tbl) = length (prefix tbl)"
    and "\<forall>i<length (prefix tbl).
           prefix tbl ! i = -1 \<or> (0 \<le> prefix tbl ! i \<and> prefix tbl ! i < int i)"
    and "\<forall>i<length (prefix tbl). \<forall>j<length (prefix tbl).
           prefix tbl ! i = prefix tbl ! j \<and> func tbl ! i = func tbl ! j \<longrightarrow> i = j"
  shows "(\<forall>n<length (prefix tbl).
            \<exists>path. getCallNodePathFromIndex (Some n) tbl = Inr path \<and>
                   getIndexFromCallNodePath path tbl = Some n) \<and>
         (\<exists>path. getCallNodePathFromIndex None tbl = Inr path \<and>
                 getIndexFromCallNodePath path tbl = None) \<and>
         (\<forall>path. (\<nexists>n. n < length (prefix tbl) \<and> getCallNodePathFromIndex (Some n) tbl = Inr path)
                   \<longrightarrow> getIndexFromCallNodePath path tbl = None)"
proof (intro conjI allI impI)
  fix n assume n: "n < length (prefix tbl)"
  from walk_then_resolve[OF assms n n, of "[]"] obtain path where
    "walkPrefixes (length (prefix tbl)) tbl (int n) [] = Inr path"
    "resolveFrom tbl (-1) (rev path) = Some (int n)" by auto
  then have "getCallNodePathFromIndex (Some n) tbl = Inr (rev path) \<and>
             getIndexFromCallNodePath (rev path) tbl = Some n"
    by (simp add: getCallNodePathFromIndex_def getIndexFromCallNodePath_def)
  then show "\<exists>path. getCallNodePathFromIndex (Some n) tbl = Inr path \<and>
                   getIndexFromCallNodePath path tbl = Some n" by blast
next
  show "\<exists>path. getCallNodePathFromIndex None tbl = Inr path \<and>
                 getIndexFromCallNodePath path tbl = None"
    by (simp add: getCallNodePathFromIndex_def getIndexFromCallNodePath_def)
next
  fix path
  assume no: "\<nexists>n. n < length (prefix tbl) \<and> getCallNodePathFromIndex (Some n) tbl = Inr path"
  show "getIndexFromCallNodePath path tbl = None"
  proof (rule ccontr)
    assume "getIndexFromCallNodePath path tbl \<noteq> None"
    then obtain c where c: "resolveFrom tbl (-1) path = Some c" "c \<noteq> -1"
      by (auto simp: getIndexFromCallNodePath_def split: option.splits if_splits)
    from resolve_then_walk[OF assms(1,2) c(1)] c(2)
    have r: "0 \<le> c" "nat c < length (prefix tbl)"
      "walkPrefixes (length (prefix tbl)) tbl c [] = Inr (rev path)"
      by auto
    then have "getCallNodePathFromIndex (Some (nat c)) tbl = Inr path"
      by (simp add: getCallNodePathFromIndex_def)
    with r(2) no show False by blast
  qed
qed

text \<open>
  The theorem at the example table: call node 2 has the path [0, 2], which resolves to 2;
  the path [0, 7] belongs to no call node and resolves to \<open>null\<close>.
\<close>

theorem C7_call_node_path_round_trip_witness:
  "getCallNodePathFromIndex (Some 2) exampleCallNodeTable = Inr [0, 2] \<and>
   getIndexFromCallNodePath [0, 2] exampleCallNodeTable = Some 2 \<and>
   getIndexFromCallNodePath [0, 7] exampleCallNodeTable = None"
proof -
  have len: "length (func exampleCallNodeTable) = length (prefix exampleCallNodeTable)"
    by (simp add: exampleCallNodeTable_def)
  have acyclic: "\<forall>i<length (prefix exampleCallNodeTable).
      prefix exampleCallNodeTable ! i = -1 \<or>
      (0 \<le> prefix exampleCallNodeTable ! i \<and> prefix exampleCallNodeTable ! i < int i)"
    by (auto simp: exampleCallNodeTable_def less_Suc_eq)
  have collapsed: "\<forall>i<length (prefix exampleCallNodeTable). \<forall>j<length (prefix exampleCallNodeTable).
      prefix exampleCallNodeTable ! i = prefix exampleCallNodeTable ! j \<and>
      func exampleCallNodeTable ! i = func exampleCallNodeTable ! j \<longrightarrow> i = j"
    by (auto simp: exampleCallNodeTable_def less_Suc_eq)
  note t = C7_call_node_path_round_trip[OF len acyclic collapsed]
  have two: "(2::nat) < length (prefix exampleCallNodeTable)"
    by (simp add: exampleCallNodeTable_def)
  have p: "getCallNodePathFromIndex (Some 2) exampleCallNodeTable = Inr [0, 2]"
    by (simp add: getCallNodePathFromIndex_def exampleCallNodeTable_def js_index_def
        numeral_eq_Suc)
  from t two p have a: "getIndexFromCallNodePath [0, 2] exampleCallNodeTable = Some 2"
    by auto
  have "\<nexists>n. n < length (prefix exampleCallNodeTable) \<and>
      getCallNodePathFromIndex (Some n) exampleCallNodeTable = Inr [0, 7]"
    by (auto simp: getCallNodePathFromIndex_def exampleCallNodeTable_def js_index_def
        less_Suc_eq numeral_eq_Suc)
  with t have b: "getIndexFromCallNodePath [0, 7] exampleCallNodeTable = None"
    by blast
  from p a b show ?thesis by simp
qed

end
